theory Spec2Isabelle
  imports Main "HOL-Library.Sublist"
begin

section \<open>The CSS selector builder of 05-objects-tasks.js\<close>

text \<open>
  The class \<^verbatim>\<open>SelectorBuilder\<close> has two mutable fields, \<^verbatim>\<open>value\<close> and
  \<^verbatim>\<open>elementCount\<close>, and a third field \<^verbatim>\<open>elementsSymbols\<close> that the constructor sets to
  the same array literal in every instance and that no method assigns; it is the constant
  \<open>elementsSymbols\<close> below. \<^verbatim>\<open>stringify\<close> and \<^verbatim>\<open>combine\<close> assign to fields of existing
  objects, so instances live in an explicit store: a list of objects, a reference being
  the index of its object. \<^verbatim>\<open>new\<close> appends to the store.

  A JavaScript string, a sequence of UTF-16 code units, is modelled as a \<open>string\<close>, a
  list of characters; \<^verbatim>\<open>includes\<close> asks for a contiguous run in either, and every marker
  token is ASCII. \<^verbatim>\<open>elementCount\<close> is a number that starts at 0 and is only ever copied,
  incremented by one or reset to 0: a natural number.
  \<^verbatim>\<open>throw new Error(...)\<close> is the left injection of the result; the two messages of
  \<^verbatim>\<open>isError\<close> are the first two constructors of \<open>error\<close>. A method call on something
  that is not an object of the store is JavaScript's \<^verbatim>\<open>TypeError\<close>.
\<close>

subsection \<open>Data\<close>

datatype error =
    DuplicateUniquePartError
      \<comment> \<open>'Element, id and pseudo-element should not occur more then one time inside the selector'\<close>
  | OutOfOrderError
      \<comment> \<open>'Selector parts should be arranged in the following order: element, id, class, ...'\<close>
  | TypeError
      \<comment> \<open>a method called on a reference that holds no object\<close>

record builder =
  val :: string  \<comment> \<open>the field \<^verbatim>\<open>value\<close>\<close>
  elementCount :: nat

type_synonym ref = nat
type_synonym heap = "builder list"

definition elementsSymbols :: "string list" where
  "elementsSymbols = ['''', ''#'', ''.'', ''['', '':'', ''::'']"

subsection \<open>The library functions the class calls\<close>

text \<open>\<^verbatim>\<open>String.prototype.includes(s)\<close>: does \<open>s\<close> occur in \<open>v\<close> as a contiguous run?\<close>

fun str_includes :: "string \<Rightarrow> string \<Rightarrow> bool" where
  "str_includes [] s = (s = [])"
| "str_includes (c # cs) s = (prefix s (c # cs) \<or> str_includes cs s)"

text \<open>\<^verbatim>\<open>Array.prototype.indexOf(x)\<close>: the first index holding \<open>x\<close>, or \<open>-1\<close>.\<close>

fun indexOf :: "'a list \<Rightarrow> 'a \<Rightarrow> int" where
  "indexOf [] x = - 1"
| "indexOf (y # ys) x =
     (if y = x then 0
      else (let i = indexOf ys x in if i < 0 then - 1 else i + 1))"

text \<open>\<^verbatim>\<open>Array.prototype.slice(start)\<close>: a negative start counts from the end.\<close>

definition slice :: "'a list \<Rightarrow> int \<Rightarrow> 'a list" where
  "slice xs start =
     (let len = int (length xs);
          k = (if start < 0 then max (len + start) 0 else min start len)
      in drop (nat k) xs)"

subsection \<open>The class\<close>

text \<open>\<^verbatim>\<open>new SelectorBuilder(value, elementCount)\<close>\<close>

definition SelectorBuilder :: "string \<Rightarrow> nat \<Rightarrow> heap \<Rightarrow> (error + ref) \<times> heap" where
  "SelectorBuilder v n h = (Inr (length h), h @ [\<lparr>val = v, elementCount = n\<rparr>])"

text \<open>
  \<^verbatim>\<open>isError(selector)\<close> reads the receiver and writes nothing. The \<^verbatim>\<open>forEach\<close> throws at
  the first later symbol found in the value; every iteration throws the same error.
\<close>

definition isError :: "builder \<Rightarrow> string \<Rightarrow> error + unit" where
  "isError this selector =
     (let isElementRepeats = (selector = '''' \<and> elementCount this > 0);
          isIdOrPseudoRepeats =
            ((selector = ''#'' \<or> selector = ''::'') \<and> str_includes (val this) selector)
      in if isElementRepeats \<or> isIdOrPseudoRepeats then Inl DuplicateUniquePartError
         else (let index = indexOf elementsSymbols selector;
                   errorSelectors = slice elementsSymbols (index + 1)
               in if list_ex (\<lambda>sel. str_includes (val this) sel) errorSelectors
                  then Inl OutOfOrderError
                  else Inr ()))"

definition element :: "ref \<Rightarrow> string \<Rightarrow> heap \<Rightarrow> (error + ref) \<times> heap" where
  "element this v h =
     (if length h \<le> this then (Inl TypeError, h)
      else case isError (h ! this) '''' of
             Inl e \<Rightarrow> (Inl e, h)
           | Inr _ \<Rightarrow> SelectorBuilder (val (h ! this) @ v) (elementCount (h ! this) + 1) h)"

definition id_op :: "ref \<Rightarrow> string \<Rightarrow> heap \<Rightarrow> (error + ref) \<times> heap" where
  "id_op this v h =
     (if length h \<le> this then (Inl TypeError, h)
      else case isError (h ! this) ''#'' of
             Inl e \<Rightarrow> (Inl e, h)
           | Inr _ \<Rightarrow> SelectorBuilder (val (h ! this) @ ''#'' @ v) (elementCount (h ! this)) h)"

definition class_op :: "ref \<Rightarrow> string \<Rightarrow> heap \<Rightarrow> (error + ref) \<times> heap" where
  "class_op this v h =
     (if length h \<le> this then (Inl TypeError, h)
      else case isError (h ! this) ''.'' of
             Inl e \<Rightarrow> (Inl e, h)
           | Inr _ \<Rightarrow> SelectorBuilder (val (h ! this) @ ''.'' @ v) (elementCount (h ! this)) h)"

definition attr :: "ref \<Rightarrow> string \<Rightarrow> heap \<Rightarrow> (error + ref) \<times> heap" where
  "attr this v h =
     (if length h \<le> this then (Inl TypeError, h)
      else case isError (h ! this) ''['' of
             Inl e \<Rightarrow> (Inl e, h)
           | Inr _ \<Rightarrow>
               SelectorBuilder (val (h ! this) @ ''['' @ v @ '']'') (elementCount (h ! this)) h)"

definition pseudoClass :: "ref \<Rightarrow> string \<Rightarrow> heap \<Rightarrow> (error + ref) \<times> heap" where
  "pseudoClass this v h =
     (if length h \<le> this then (Inl TypeError, h)
      else case isError (h ! this) '':'' of
             Inl e \<Rightarrow> (Inl e, h)
           | Inr _ \<Rightarrow> SelectorBuilder (val (h ! this) @ '':'' @ v) (elementCount (h ! this)) h)"

definition pseudoElement :: "ref \<Rightarrow> string \<Rightarrow> heap \<Rightarrow> (error + ref) \<times> heap" where
  "pseudoElement this v h =
     (if length h \<le> this then (Inl TypeError, h)
      else case isError (h ! this) ''::'' of
             Inl e \<Rightarrow> (Inl e, h)
           | Inr _ \<Rightarrow> SelectorBuilder (val (h ! this) @ ''::'' @ v) (elementCount (h ! this)) h)"

text \<open>\<^verbatim>\<open>stringify()\<close> assigns 0 to the receiver's \<^verbatim>\<open>elementCount\<close>, then returns its value.\<close>

definition stringify :: "ref \<Rightarrow> heap \<Rightarrow> (error + string) \<times> heap" where
  "stringify this h =
     (if length h \<le> this then (Inl TypeError, h)
      else (let h1 = h[this := (h ! this)\<lparr>elementCount := 0\<rparr>]
            in (Inr (val (h1 ! this)), h1)))"

text \<open>
  \<^verbatim>\<open>combine(selector1, combiner, selector2)\<close>: the template literal calls
  \<^verbatim>\<open>selector1.stringify()\<close>, then \<^verbatim>\<open>selector2.stringify()\<close>; the receiver's value is
  assigned the joined text, read back into \<^verbatim>\<open>result\<close>, and assigned the empty string.
\<close>

definition combine :: "ref \<Rightarrow> ref \<Rightarrow> string \<Rightarrow> ref \<Rightarrow> heap \<Rightarrow> (error + ref) \<times> heap" where
  "combine this selector1 combiner selector2 h =
     (if length h \<le> this then (Inl TypeError, h)
      else case stringify selector1 h of
             (Inl e, h1) \<Rightarrow> (Inl e, h1)
           | (Inr s1, h1) \<Rightarrow>
               (case stringify selector2 h1 of
                  (Inl e, h2) \<Rightarrow> (Inl e, h2)
                | (Inr s2, h2) \<Rightarrow>
                    (let h3 = h2[this := (h2 ! this)\<lparr>val := s1 @ '' '' @ combiner @ '' '' @ s2\<rparr>];
                         result = val (h3 ! this);
                         h4 = h3[this := (h3 ! this)\<lparr>val := ''''\<rparr>]
                     in SelectorBuilder result 0 h4)))"

text \<open>\<^verbatim>\<open>const cssSelectorBuilder = new SelectorBuilder()\<close>, in the empty store.\<close>

definition cssSelectorBuilder :: ref where
  "cssSelectorBuilder = 0"

definition initial_heap :: heap where
  "initial_heap = snd (SelectorBuilder '''' 0 [])"

subsection \<open>The six kinds of part\<close>

datatype kind = Element | Id | Class | Attr | PseudoClass | PseudoElement

text \<open>The symbol each part-appending method passes to \<^verbatim>\<open>isError\<close>.\<close>

fun marker :: "kind \<Rightarrow> string" where
  "marker Element = ''''"
| "marker Id = ''#''"
| "marker Class = ''.''"
| "marker Attr = ''[''"
| "marker PseudoClass = '':''"
| "marker PseudoElement = ''::''"

text \<open>The method of each kind.\<close>

fun append_part :: "kind \<Rightarrow> ref \<Rightarrow> string \<Rightarrow> heap \<Rightarrow> (error + ref) \<times> heap" where
  "append_part Element = element"
| "append_part Id = id_op"
| "append_part Class = class_op"
| "append_part Attr = attr"
| "append_part PseudoClass = pseudoClass"
| "append_part PseudoElement = pseudoElement"

text \<open>
  The text each method puts after the receiver's value: the marker of the kind, the
  fragment, and for an attribute the closing bracket.
\<close>

fun part_text :: "kind \<Rightarrow> string \<Rightarrow> string" where
  "part_text Element v = v"
| "part_text Id v = ''#'' @ v"
| "part_text Class v = ''.'' @ v"
| "part_text Attr v = ''['' @ v @ '']''"
| "part_text PseudoClass v = '':'' @ v"
| "part_text PseudoElement v = ''::'' @ v"

text \<open>
  The fixed order of the kinds, and the markers of the kinds strictly after a kind in it.
\<close>

fun rank :: "kind \<Rightarrow> nat" where
  "rank Element = 0"
| "rank Id = 1"
| "rank Class = 2"
| "rank Attr = 3"
| "rank PseudoClass = 4"
| "rank PseudoElement = 5"

definition kinds :: "kind list" where
  "kinds = [Element, Id, Class, Attr, PseudoClass, PseudoElement]"

definition later_markers :: "kind \<Rightarrow> string list" where
  "later_markers k = map marker (filter (\<lambda>k'. rank k < rank k') kinds)"

text \<open>The two conditions \<^verbatim>\<open>isError\<close> tests, by kind.\<close>

definition repeats :: "builder \<Rightarrow> kind \<Rightarrow> bool" where
  "repeats this k =
     ((k = Id \<or> k = PseudoElement) \<and> str_includes (val this) (marker k)
      \<or> k = Element \<and> 0 < elementCount this)"

definition holds_later :: "builder \<Rightarrow> kind \<Rightarrow> bool" where
  "holds_later this k = list_ex (str_includes (val this)) (later_markers k)"

text \<open>The store after \<^verbatim>\<open>combine\<close> has rendered its two operands.\<close>

definition rendered :: "ref \<Rightarrow> ref \<Rightarrow> heap \<Rightarrow> heap" where
  "rendered s1 s2 h = snd (stringify s2 (snd (stringify s1 h)))"

subsection \<open>Chains of part-appending calls\<close>

text \<open>
  \<^verbatim>\<open>b.k1(v1).k2(v2)...\<close>: each call is made on the builder the previous call returned;
  an error ends the chain.
\<close>

fun chain :: "ref \<Rightarrow> (kind \<times> string) list \<Rightarrow> heap \<Rightarrow> (error + ref) \<times> heap" where
  "chain b [] h = (Inr b, h)"
| "chain b ((k, v) # ps) h =
     (case append_part k b v h of
        (Inl e, h') \<Rightarrow> (Inl e, h')
      | (Inr b', h') \<Rightarrow> chain b' ps h')"

text \<open>
  The kinds that may occur several times in a selector, and the kinds of a chain being in
  the fixed order: each kind is strictly after the one before it, or is the same
  repeatable kind again.
\<close>

definition repeatable :: "kind \<Rightarrow> bool" where
  "repeatable k = (k = Class \<or> k = Attr \<or> k = PseudoClass)"

fun ordered_after :: "kind option \<Rightarrow> kind list \<Rightarrow> bool" where
  "ordered_after p [] = True"
| "ordered_after None (k # ks) = ordered_after (Some k) ks"
| "ordered_after (Some p) (k # ks) =
     ((rank p < rank k \<or> p = k \<and> repeatable k) \<and> ordered_after (Some k) ks)"

definition in_order :: "kind list \<Rightarrow> bool" where
  "in_order ks = ordered_after None ks"

text \<open>
  A fragment of kind \<open>k\<close> that holds no character of the marker of a later kind; a
  pseudo-class fragment is moreover not empty, so that its colon does not meet the colon
  of the next pseudo-class or pseudo-element.
\<close>

definition marker_free :: "kind \<Rightarrow> string \<Rightarrow> bool" where
  "marker_free k v =
     (set v \<inter> set (concat (later_markers k)) = {} \<and> (k = PseudoClass \<longrightarrow> v \<noteq> []))"

text \<open>
  What holds of a builder at the end of such a chain, by the kind of its last part
  (\<open>None\<close>: no part yet).
\<close>

definition no_dcolon :: "string \<Rightarrow> bool" where
  "no_dcolon s = (\<not> str_includes s ''::'' \<and> (s = [] \<or> last s \<noteq> CHR '':''))"

fun settled :: "kind option \<Rightarrow> builder \<Rightarrow> bool" where
  "settled None this = (val this = [] \<and> elementCount this = 0)"
| "settled (Some PseudoElement) this = True"
| "settled (Some PseudoClass) this = no_dcolon (val this)"
| "settled (Some p) this = (set (val this) \<inter> set (concat (later_markers p)) = {})"

abbreviation obj :: "string \<Rightarrow> nat \<Rightarrow> builder" where
  "obj v n \<equiv> \<lparr>val = v, elementCount = n\<rparr>"

section \<open>Properties\<close>

subsection \<open>The library functions\<close>

lemma str_includes_sublist: "str_includes v s = sublist s v"
  by (induction v) (simp_all add: sublist_Cons_right)

lemma str_includes_single: "str_includes v [c] = (c \<in> set v)"
  by (induction v) auto

subsection \<open>The check, by kind\<close>

text \<open>
  The symbols \<^verbatim>\<open>isError\<close> slices off \<^verbatim>\<open>elementsSymbols\<close> are the markers of the strictly
  later kinds.
\<close>

lemma errorSelectors_marker:
  "slice elementsSymbols (indexOf elementsSymbols (marker k) + 1) = later_markers k"
  by (cases k) (simp_all add: slice_def elementsSymbols_def later_markers_def kinds_def)

lemma isError_marker:
  "isError this (marker k) =
     (if repeats this k then Inl DuplicateUniquePartError
      else if holds_later this k then Inl OutOfOrderError
      else Inr ())"
  unfolding isError_def Let_def errorSelectors_marker repeats_def holds_later_def
  by (cases k) simp_all

lemma append_part_valid:
  assumes "b < length h"
  shows "append_part k b v h =
     (case isError (h ! b) (marker k) of
        Inl e \<Rightarrow> (Inl e, h)
      | Inr _ \<Rightarrow>
          (Inr (length h),
           h @ [obj (val (h ! b) @ part_text k v)
                    (elementCount (h ! b) + (if k = Element then 1 else 0))]))"
  using assms
  by (cases k)
     (simp_all add: element_def id_op_def class_op_def attr_def pseudoClass_def
        pseudoElement_def SelectorBuilder_def split: sum.splits)

lemma append_part_cases:
  assumes "b < length h"
  shows "append_part k b v h =
     (if repeats (h ! b) k then (Inl DuplicateUniquePartError, h)
      else if holds_later (h ! b) k then (Inl OutOfOrderError, h)
      else (Inr (length h),
            h @ [obj (val (h ! b) @ part_text k v)
                     (elementCount (h ! b) + (if k = Element then 1 else 0))]))"
  by (simp add: append_part_valid [OF assms] isError_marker)

lemma append_part_invalid:
  "length h \<le> b \<Longrightarrow> append_part k b v h = (Inl TypeError, h)"
  by (cases k)
     (simp_all add: element_def id_op_def class_op_def attr_def pseudoClass_def
        pseudoElement_def)

subsection \<open>The errors of the part-appending methods\<close>

text \<open>
  C6. On a builder of the store, a part-appending call fails with
  \<open>DuplicateUniquePartError\<close>, leaving the store as it was, when the kind is id or
  pseudo-element and the receiver's value includes that kind's marker, or the kind is
  element and the receiver's element count is positive; and in no other case.
\<close>

theorem duplicate_unique_part:
  assumes "b < length h"
  shows "(append_part k b v h = (Inl DuplicateUniquePartError, h)) =
         ((k = Id \<or> k = PseudoElement) \<and> str_includes (val (h ! b)) (marker k)
          \<or> k = Element \<and> 0 < elementCount (h ! b))"
  by (simp add: append_part_cases [OF assms] repeats_def)

text \<open>\<^verbatim>\<open>element('div').element('span')\<close> from the fresh root.\<close>

theorem duplicate_unique_part_witness:
  "element cssSelectorBuilder ''div'' initial_heap = (Inr 1, [obj '''' 0, obj ''div'' 1])
   \<and> (1::nat) < length [obj '''' 0, obj ''div'' 1]
   \<and> append_part Element 1 ''span'' [obj '''' 0, obj ''div'' 1] =
       (Inl DuplicateUniquePartError, [obj '''' 0, obj ''div'' 1])"
  using duplicate_unique_part [of 1 "[obj '''' 0, obj ''div'' 1]" Element "''span''"]
  by (simp add: element_def cssSelectorBuilder_def initial_heap_def SelectorBuilder_def
        isError_def elementsSymbols_def slice_def)

text \<open>
  C5, as the code has it. On a builder of the store, a part-appending call fails with
  \<open>OutOfOrderError\<close>, leaving the store as it was, exactly when the duplicate test of C6
  does not fire and the receiver's value includes the marker of a kind strictly after
  the candidate kind in the fixed order.
\<close>

theorem out_of_order:
  assumes "b < length h"
  shows "(append_part k b v h = (Inl OutOfOrderError, h)) =
         (\<not> ((k = Id \<or> k = PseudoElement) \<and> str_includes (val (h ! b)) (marker k)
             \<or> k = Element \<and> 0 < elementCount (h ! b))
          \<and> list_ex (str_includes (val (h ! b))) (later_markers k))"
  by (simp add: append_part_cases [OF assms] repeats_def holds_later_def)

text \<open>\<^verbatim>\<open>id('x').element('div')\<close> from the fresh root.\<close>

theorem out_of_order_witness:
  "id_op cssSelectorBuilder ''x'' initial_heap = (Inr 1, [obj '''' 0, obj ''#x'' 0])
   \<and> (1::nat) < length [obj '''' 0, obj ''#x'' 0]
   \<and> append_part Element 1 ''div'' [obj '''' 0, obj ''#x'' 0] =
       (Inl OutOfOrderError, [obj '''' 0, obj ''#x'' 0])"
  using out_of_order [of 1 "[obj '''' 0, obj ''#x'' 0]" Element "''div''"]
  by (simp add: id_op_def cssSelectorBuilder_def initial_heap_def SelectorBuilder_def
        isError_def elementsSymbols_def slice_def later_markers_def kinds_def)

text \<open>
  C5 as stated fails at \<^verbatim>\<open>element('div').id('x').element('p')\<close>: the value \<open>div#x\<close>
  includes \<open>#\<close>, the marker of a kind after element, and the call fails with the
  duplicate error, which is tested first.
\<close>

theorem out_of_order_counterexample:
  "element cssSelectorBuilder ''div'' initial_heap = (Inr 1, [obj '''' 0, obj ''div'' 1])
   \<and> id_op 1 ''x'' [obj '''' 0, obj ''div'' 1] =
       (Inr 2, [obj '''' 0, obj ''div'' 1, obj ''div#x'' 1])
   \<and> list_ex (str_includes (val ([obj '''' 0, obj ''div'' 1, obj ''div#x'' 1] ! 2)))
        (later_markers Element)
   \<and> element 2 ''p'' [obj '''' 0, obj ''div'' 1, obj ''div#x'' 1] =
       (Inl DuplicateUniquePartError, [obj '''' 0, obj ''div'' 1, obj ''div#x'' 1])
   \<and> fst (element 2 ''p'' [obj '''' 0, obj ''div'' 1, obj ''div#x'' 1]) \<noteq> Inl OutOfOrderError"
  by (simp add: element_def id_op_def cssSelectorBuilder_def initial_heap_def
        SelectorBuilder_def isError_def elementsSymbols_def slice_def later_markers_def
        kinds_def)

text \<open>
  C10. The duplicate test scans the text of the value: after
  \<^verbatim>\<open>attr('data-x="#1"')\<close> on the fresh root, a builder to which no id was appended,
  \<^verbatim>\<open>id(v)\<close> fails with the duplicate error for every \<open>v\<close>.
\<close>

theorem raw_scan_false_duplicate:
  "attr cssSelectorBuilder ''data-x=\"#1\"'' initial_heap =
     (Inr 1, [obj '''' 0, obj ''[data-x=\"#1\"]'' 0])
   \<and> id_op 1 v [obj '''' 0, obj ''[data-x=\"#1\"]'' 0] =
       (Inl DuplicateUniquePartError, [obj '''' 0, obj ''[data-x=\"#1\"]'' 0])"
  by (simp add: attr_def id_op_def cssSelectorBuilder_def initial_heap_def SelectorBuilder_def
        isError_def elementsSymbols_def slice_def)

subsection \<open>Render and combine\<close>

lemma stringify_valid:
  "b < length h \<Longrightarrow>
   stringify b h = (Inr (val (h ! b)), h[b := (h ! b)\<lparr>elementCount := 0\<rparr>])"
  by (simp add: stringify_def)

lemma stringify_invalid: "length h \<le> b \<Longrightarrow> stringify b h = (Inl TypeError, h)"
  by (simp add: stringify_def)

lemma stringify_Inr: "fst (stringify b h) = Inr s \<longleftrightarrow> b < length h \<and> s = val (h ! b)"
  by (auto simp add: stringify_def Let_def)

lemma length_stringify: "length (snd (stringify b h)) = length h"
  by (simp add: stringify_def Let_def)

lemma val_stringify: "val (snd (stringify r h) ! b) = val (h ! b)"
  by (cases "b = r") (simp_all add: stringify_def Let_def)

lemma other_stringify: "b \<noteq> r \<Longrightarrow> snd (stringify r h) ! b = h ! b"
  by (simp add: stringify_def Let_def)

lemma length_rendered: "length (rendered s1 s2 h) = length h"
  by (simp add: rendered_def length_stringify)

lemma val_rendered: "val (rendered s1 s2 h ! b) = val (h ! b)"
  by (simp add: rendered_def val_stringify)

lemma other_rendered: "b \<noteq> s1 \<Longrightarrow> b \<noteq> s2 \<Longrightarrow> rendered s1 s2 h ! b = h ! b"
  by (simp add: rendered_def other_stringify)

text \<open>\<^verbatim>\<open>combine\<close> on three builders of the store, which may be the same object.\<close>

lemma combine_valid:
  assumes "this < length h" "s1 < length h" "s2 < length h"
  shows "combine this s1 tok s2 h =
    (Inr (length h),
     (rendered s1 s2 h)[this := (rendered s1 s2 h ! this)\<lparr>val := ''''\<rparr>]
       @ [obj (val (h ! s1) @ '' '' @ tok @ '' '' @ val (h ! s2)) 0])"
proof -
  let ?h1 = "h[s1 := (h ! s1)\<lparr>elementCount := 0\<rparr>]"
  have 1: "stringify s1 h = (Inr (val (h ! s1)), ?h1)"
    using assms(2) by (rule stringify_valid)
  have "stringify s2 ?h1 = (Inr (val (?h1 ! s2)), snd (stringify s2 ?h1))"
    using assms(3) by (simp add: stringify_valid)
  moreover have "val (?h1 ! s2) = val (h ! s2)"
    using val_stringify [of s1 h s2] by (simp add: 1)
  ultimately have 2: "stringify s2 ?h1 = (Inr (val (h ! s2)), rendered s1 s2 h)"
    by (simp add: rendered_def 1)
  show ?thesis
    using assms(1) by (simp add: combine_def 1 2 length_rendered Let_def SelectorBuilder_def)
qed

text \<open>The store \<^verbatim>\<open>combine\<close> leaves, whichever way it ends.\<close>

lemma combine_store:
  "snd (combine this s1 tok s2 h) = h
   \<or> snd (combine this s1 tok s2 h) = snd (stringify s1 h)
   \<or> snd (combine this s1 tok s2 h) = rendered s1 s2 h
   \<or> (this < length h \<and>
       snd (combine this s1 tok s2 h) =
         (rendered s1 s2 h)[this := (rendered s1 s2 h ! this)\<lparr>val := ''''\<rparr>]
           @ [obj (val (h ! s1) @ '' '' @ tok @ '' '' @ val (h ! s2)) 0])"
proof (cases "this < length h \<and> s1 < length h \<and> s2 < length h")
  case True
  then show ?thesis by (simp add: combine_valid)
next
  case False
  then consider "length h \<le> this" | "this < length h" "length h \<le> s1"
    | "this < length h" "s1 < length h" "length h \<le> s2" by linarith
  then show ?thesis
  proof cases
    case 1
    then show ?thesis by (simp add: combine_def)
  next
    case 2
    then show ?thesis by (simp add: combine_def stringify_invalid)
  next
    case 3
    then have "stringify s2 (snd (stringify s1 h)) = (Inl TypeError, snd (stringify s1 h))"
      by (simp add: stringify_invalid length_stringify)
    with 3 show ?thesis by (simp add: combine_def stringify_valid)
  qed
qed

text \<open>
  C8. Two \<^verbatim>\<open>stringify()\<close> calls in succession on the same reference return the same
  result, and the second leaves the store as the first left it; on a builder of the
  store the result is its value.
\<close>

theorem stringify_idempotent:
  "fst (stringify b (snd (stringify b h))) = fst (stringify b h)
   \<and> snd (stringify b (snd (stringify b h))) = snd (stringify b h)
   \<and> (b < length h \<longrightarrow> fst (stringify b h) = Inr (val (h ! b)))"
  by (simp add: stringify_def Let_def)

theorem stringify_idempotent_witness:
  "(1::nat) < length [obj '''' 0, obj ''div'' 1]
   \<and> fst (stringify 1 [obj '''' 0, obj ''div'' 1]) = Inr ''div''
   \<and> fst (stringify 1 (snd (stringify 1 [obj '''' 0, obj ''div'' 1]))) = Inr ''div''"
  using stringify_idempotent [of 1 "[obj '''' 0, obj ''div'' 1]"]
  by simp

text \<open>
  C4. For a receiver of the store, builders \<open>A\<close> and \<open>B\<close> that render to \<open>sA\<close> and \<open>sB\<close>,
  and any token, \<^verbatim>\<open>combine(A, tok, B)\<close> raises nothing and returns a reference to a new
  object, the only one added to the store, which renders to \<open>sA\<close>, a space, the token, a
  space and \<open>sB\<close>, and whose element count is 0.
\<close>

theorem combine_result:
  assumes "this < length h"
    and "fst (stringify A h) = Inr sA"
    and "fst (stringify B h) = Inr sB"
  shows "fst (combine this A tok B h) = Inr (length h)
   \<and> length (snd (combine this A tok B h)) = Suc (length h)
   \<and> fst (stringify (length h) (snd (combine this A tok B h))) =
       Inr (sA @ '' '' @ tok @ '' '' @ sB)
   \<and> elementCount (snd (combine this A tok B h) ! length h) = 0"
proof -
  from assms(2) have A: "A < length h" "sA = val (h ! A)"
    by (simp_all add: stringify_Inr)
  from assms(3) have B: "B < length h" "sB = val (h ! B)"
    by (simp_all add: stringify_Inr)
  show ?thesis
    by (simp add: combine_valid [OF assms(1) A(1) B(1)] A(2) B(2) length_rendered
          stringify_valid nth_append)
qed

text \<open>\<^verbatim>\<open>combine(element('div').id('a'), '+', element('span').id('b')).stringify()\<close>\<close>

theorem combine_result_witness:
  "(0::nat) < length [obj '''' 0, obj ''div'' 1, obj ''div#a'' 1, obj ''span'' 1, obj ''span#b'' 1]
   \<and> fst (stringify 2 [obj '''' 0, obj ''div'' 1, obj ''div#a'' 1, obj ''span'' 1, obj ''span#b'' 1])
       = Inr ''div#a''
   \<and> fst (stringify 4 [obj '''' 0, obj ''div'' 1, obj ''div#a'' 1, obj ''span'' 1, obj ''span#b'' 1])
       = Inr ''span#b''
   \<and> fst (combine 0 2 ''+'' 4
            [obj '''' 0, obj ''div'' 1, obj ''div#a'' 1, obj ''span'' 1, obj ''span#b'' 1]) = Inr 5
   \<and> fst (stringify 5 (snd (combine 0 2 ''+'' 4
            [obj '''' 0, obj ''div'' 1, obj ''div#a'' 1, obj ''span'' 1, obj ''span#b'' 1])))
       = Inr ''div#a + span#b''"
proof -
  let ?H = "[obj '''' 0, obj ''div'' 1, obj ''div#a'' 1, obj ''span'' 1, obj ''span#b'' 1]"
  have 1: "(0::nat) < length ?H"
    by simp
  have 2: "fst (stringify 2 ?H) = Inr ''div#a''"
    by (simp add: stringify_def)
  have 3: "fst (stringify 4 ?H) = Inr ''span#b''"
    by (simp add: stringify_def)
  have 4: "length ?H = 5"
    by simp
  show ?thesis
    using combine_result [OF 1 2 3, of "''+''"] 1 2 3 unfolding 4 by simp
qed

text \<open>
  C9. \<^verbatim>\<open>b.combine(s1, tok, s2)\<close> on builders of the store, \<open>b\<close> holding a non-empty
  value: afterwards \<open>b\<close>'s value is the empty string, so no longer what it was, and the
  joined text is the value of the fresh object the call returns, which is not \<open>b\<close>.
\<close>

theorem combine_clears_receiver:
  assumes "this < length h" "s1 < length h" "s2 < length h"
    and "val (h ! this) \<noteq> ''''"
  shows "fst (combine this s1 tok s2 h) = Inr (length h)
   \<and> val (snd (combine this s1 tok s2 h) ! this) = ''''
   \<and> val (snd (combine this s1 tok s2 h) ! this) \<noteq> val (h ! this)
   \<and> length h \<noteq> this
   \<and> val (snd (combine this s1 tok s2 h) ! length h) =
       val (h ! s1) @ '' '' @ tok @ '' '' @ val (h ! s2)"
  using assms
  by (simp add: combine_valid length_rendered nth_append)

theorem combine_clears_receiver_witness:
  "(1::nat) < length [obj '''' 0, obj ''div'' 1, obj ''.a'' 0]
   \<and> (2::nat) < length [obj '''' 0, obj ''div'' 1, obj ''.a'' 0]
   \<and> val ([obj '''' 0, obj ''div'' 1, obj ''.a'' 0] ! 1) \<noteq> ''''
   \<and> combine 1 1 ''>'' 2 [obj '''' 0, obj ''div'' 1, obj ''.a'' 0] =
       (Inr 3, [obj '''' 0, obj '''' 0, obj ''.a'' 0, obj ''div > .a'' 0])"
  using combine_clears_receiver [of 1 "[obj '''' 0, obj ''div'' 1, obj ''.a'' 0]" 1 2 "''>''"]
  by (simp add: combine_def stringify_def SelectorBuilder_def)

subsection \<open>What the methods leave unchanged\<close>

text \<open>
  C2, as the code has it. Let \<open>b\<close> be a builder of the store. A part-appending call on
  any reference, failing or not, leaves \<open>b\<close> as it was. \<^verbatim>\<open>stringify\<close> on any reference
  leaves \<open>b\<close>'s value as it was, and all of \<open>b\<close> when \<open>b\<close> is not the receiver.
  \<^verbatim>\<open>combine\<close> leaves \<open>b\<close>'s value as it was when \<open>b\<close> is not the receiver, and all of \<open>b\<close>
  when \<open>b\<close> is neither the receiver nor an operand.
\<close>

theorem frame:
  assumes "b < length h"
  shows "snd (append_part k r v h) ! b = h ! b
   \<and> val (snd (stringify r h) ! b) = val (h ! b)
   \<and> (b \<noteq> r \<longrightarrow> snd (stringify r h) ! b = h ! b)
   \<and> (b \<noteq> r \<longrightarrow> val (snd (combine r s1 tok s2 h) ! b) = val (h ! b))
   \<and> (b \<noteq> r \<and> b \<noteq> s1 \<and> b \<noteq> s2 \<longrightarrow> snd (combine r s1 tok s2 h) ! b = h ! b)"
proof -
  have 1: "snd (append_part k r v h) ! b = h ! b"
  proof (cases "r < length h")
    case True
    with assms show ?thesis by (simp add: append_part_cases nth_append)
  next
    case False
    then show ?thesis by (simp add: append_part_invalid)
  qed
  have 2: "val (snd (combine r s1 tok s2 h) ! b) = val (h ! b)" if "b \<noteq> r"
    using combine_store [of r s1 tok s2 h] assms that
    by (auto simp add: val_stringify val_rendered length_rendered nth_append)
  have 3: "snd (combine r s1 tok s2 h) ! b = h ! b" if "b \<noteq> r" "b \<noteq> s1" "b \<noteq> s2"
    using combine_store [of r s1 tok s2 h] assms that
    by (auto simp add: other_stringify other_rendered length_rendered nth_append)
  show ?thesis
    using 1 2 3 by (simp add: val_stringify other_stringify)
qed

theorem frame_witness:
  "(1::nat) < length [obj '''' 0, obj ''div'' 1, obj ''.a'' 0]
   \<and> (1::nat) \<noteq> 0 \<and> (1::nat) \<noteq> 2
   \<and> snd (append_part Class 0 ''x'' [obj '''' 0, obj ''div'' 1, obj ''.a'' 0]) ! 1 = obj ''div'' 1
   \<and> val (snd (stringify 0 [obj '''' 0, obj ''div'' 1, obj ''.a'' 0]) ! 1) = ''div''
   \<and> snd (stringify 0 [obj '''' 0, obj ''div'' 1, obj ''.a'' 0]) ! 1 = obj ''div'' 1
   \<and> snd (combine 0 0 ''+'' 2 [obj '''' 0, obj ''div'' 1, obj ''.a'' 0]) ! 1 = obj ''div'' 1"
  using frame [of 1 "[obj '''' 0, obj ''div'' 1, obj ''.a'' 0]" Class 0 "''x''" 0 "''+''" 2]
  by simp

text \<open>
  C2 as stated fails at \<^verbatim>\<open>b = element('div')\<close>, \<^verbatim>\<open>b.combine(root, '+', root)\<close>: the call
  assigns the empty string to \<open>b\<close>'s value.
\<close>

theorem frame_counterexample:
  "element cssSelectorBuilder ''div'' initial_heap = (Inr 1, [obj '''' 0, obj ''div'' 1])
   \<and> combine 1 0 ''+'' 0 [obj '''' 0, obj ''div'' 1] =
       (Inr 2, [obj '''' 0, obj '''' 1, obj '' + '' 0])
   \<and> val (snd (combine 1 0 ''+'' 0 [obj '''' 0, obj ''div'' 1]) ! 1)
       \<noteq> val ([obj '''' 0, obj ''div'' 1] ! 1)"
  by (simp add: element_def cssSelectorBuilder_def initial_heap_def SelectorBuilder_def
        isError_def elementsSymbols_def slice_def combine_def stringify_def)

text \<open>
  C3 says that a second element part is always refused with the duplicate error. The
  code at \<^verbatim>\<open>b = element('div')\<close>, \<^verbatim>\<open>b.stringify()\<close>, \<^verbatim>\<open>b.element('span')\<close>: rendering
  has set the element count of \<open>b\<close> to 0, and the second element part is accepted, giving a
  builder of value \<open>divspan\<close>.
\<close>

theorem second_element_after_stringify:
  "element cssSelectorBuilder ''div'' initial_heap = (Inr 1, [obj '''' 0, obj ''div'' 1])
   \<and> stringify 1 [obj '''' 0, obj ''div'' 1] = (Inr ''div'', [obj '''' 0, obj ''div'' 0])
   \<and> element 1 ''span'' [obj '''' 0, obj ''div'' 0] =
       (Inr 2, [obj '''' 0, obj ''div'' 0, obj ''divspan'' 1])"
  by (simp add: element_def cssSelectorBuilder_def initial_heap_def SelectorBuilder_def
        isError_def elementsSymbols_def slice_def stringify_def)

subsection \<open>Chains in the fixed order\<close>

lemma later_markers_simps:
  "later_markers Element = [''#'', ''.'', ''['', '':'', ''::'']"
  "later_markers Id = [''.'', ''['', '':'', ''::'']"
  "later_markers Class = [''['', '':'', ''::'']"
  "later_markers Attr = ['':'', ''::'']"
  "later_markers PseudoClass = [''::'']"
  "later_markers PseudoElement = []"
  by (simp_all add: later_markers_def kinds_def)

lemma str_includes_dcolon: "str_includes s ''::'' \<Longrightarrow> CHR '':'' \<in> set s"
  by (induction s) auto

lemma last_not_member: "c \<notin> set s \<Longrightarrow> s = [] \<or> last s \<noteq> c"
  using last_in_set [of s] by auto

lemma no_colon_no_dcolon: "CHR '':'' \<notin> set s \<Longrightarrow> no_dcolon s"
  unfolding no_dcolon_def
  using str_includes_dcolon [of s] last_not_member [of "CHR '':''" s] by blast

lemma no_dcolon_append:
  "no_dcolon s \<Longrightarrow> v \<noteq> [] \<Longrightarrow> CHR '':'' \<notin> set v \<Longrightarrow> no_dcolon (s @ '':'' @ v)"
proof (induction s)
  case Nil
  have "\<not> str_includes v ''::''"
    using str_includes_dcolon [of v] Nil.prems(3) by blast
  moreover have "\<not> prefix ''::'' ('':'' @ v)"
    using Nil.prems(2,3) by (cases v) auto
  moreover have "last v \<noteq> CHR '':''"
    using last_not_member [of "CHR '':''" v] Nil.prems(2,3) by blast
  ultimately show ?case
    using Nil.prems(2) by (simp add: no_dcolon_def)
next
  case (Cons c cs)
  from Cons.prems(1) have cs: "no_dcolon cs"
    by (auto simp add: no_dcolon_def split: if_splits)
  have ih: "no_dcolon (cs @ '':'' @ v)"
    using Cons.IH [OF cs Cons.prems(2,3)] .
  have "\<not> prefix ''::'' (c # cs @ '':'' @ v)"
    using Cons.prems(1) by (cases cs) (auto simp add: no_dcolon_def)
  with ih Cons.prems(2) show ?case
    by (auto simp add: no_dcolon_def)
qed

lemma no_dcolon_Nil: "no_dcolon []"
  by (simp add: no_dcolon_def)

lemma settled_no_dcolon:
  assumes "settled prev this" "ordered_after prev (PseudoClass # ks)"
  shows "no_dcolon (val this)"
proof (cases prev)
  case None
  with assms show ?thesis by (simp add: no_dcolon_Nil)
next
  case (Some p)
  with assms show ?thesis
    by (cases p) (auto simp add: later_markers_simps intro: no_colon_no_dcolon)
qed

lemma settled_accepts:
  assumes "settled prev this" "ordered_after prev (k # ks)"
  shows "\<not> repeats this k" and "\<not> holds_later this k"
proof -
  show "\<not> repeats this k"
  proof (cases prev)
    case None
    with assms show ?thesis by (cases k) (simp_all add: repeats_def)
  next
    case (Some p)
    with assms show ?thesis
      by (cases p; cases k)
         (auto simp add: repeats_def later_markers_simps str_includes_single no_dcolon_def
            repeatable_def dest: str_includes_dcolon)
  qed
  show "\<not> holds_later this k"
  proof (cases prev)
    case None
    with assms show ?thesis by (cases k) (simp_all add: holds_later_def later_markers_simps)
  next
    case (Some p)
    with assms show ?thesis
      by (cases p; cases k)
         (auto simp add: holds_later_def later_markers_simps str_includes_single no_dcolon_def
            repeatable_def dest: str_includes_dcolon)
  qed
qed

lemma settled_step:
  assumes "settled prev this" "ordered_after prev (k # ks)" "marker_free k v"
  shows "settled (Some k) (obj (val this @ part_text k v) n)"
proof (cases "k = PseudoClass")
  case True
  have "no_dcolon (val this)"
    using assms(1,2) unfolding True by (rule settled_no_dcolon)
  then have "no_dcolon (val this @ '':'' @ v)"
    using assms(3) by (intro no_dcolon_append) (auto simp add: True marker_free_def later_markers_simps)
  then show ?thesis by (simp add: True)
next
  case False
  show ?thesis
  proof (cases prev)
    case None
    with assms False show ?thesis
      by (cases k) (auto simp add: marker_free_def later_markers_simps)
  next
    case (Some p)
    with assms False show ?thesis
      by (cases p; cases k)
         (auto simp add: marker_free_def later_markers_simps repeatable_def)
  qed
qed

lemma chain_settled:
  assumes "b < length h" "settled prev (h ! b)" "ordered_after prev (map fst ps)"
    and "list_all (\<lambda>(k, v). marker_free k v) ps"
  shows "\<exists>b' h'. chain b ps h = (Inr b', h') \<and> b' < length h'
           \<and> val (h' ! b') = val (h ! b) @ concat (map (\<lambda>(k, v). part_text k v) ps)"
  using assms
proof (induction ps arbitrary: b h prev)
  case Nil
  then show ?case by simp
next
  case (Cons p ps)
  obtain k v where p: "p = (k, v)" by (cases p)
  let ?new = "obj (val (h ! b) @ part_text k v) (elementCount (h ! b) + (if k = Element then 1 else 0))"
  from Cons.prems(3) have ord: "ordered_after prev (k # map fst ps)"
    by (simp add: p)
  from Cons.prems(4) have free: "marker_free k v" "list_all (\<lambda>(k, v). marker_free k v) ps"
    by (simp_all add: p)
  have step: "append_part k b v h = (Inr (length h), h @ [?new])"
    using settled_accepts [OF Cons.prems(2) ord]
    by (simp add: append_part_cases [OF Cons.prems(1)])
  have "settled (Some k) ((h @ [?new]) ! length h)"
    using settled_step [OF Cons.prems(2) ord free(1)] by simp
  moreover have "ordered_after (Some k) (map fst ps)"
    using ord by (cases prev) simp_all
  moreover have "length h < length (h @ [?new])"
    by simp
  ultimately obtain b' h' where
    "chain (length h) ps (h @ [?new]) = (Inr b', h')" "b' < length h'"
    "val (h' ! b') = val ((h @ [?new]) ! length h) @ concat (map (\<lambda>(k, v). part_text k v) ps)"
    using Cons.IH [of "length h" "h @ [?new]" "Some k"] free(2) by blast
  then show ?case
    by (simp add: p step)
qed

text \<open>
  C7, as the code has it. From a fresh builder (empty value, element count 0), a chain of
  part-appending calls whose kinds are in the fixed order and whose fragments are free of
  the characters of later markers succeeds at every call, and \<^verbatim>\<open>stringify()\<close> on the
  builder it returns yields the texts of the parts, in the order applied: the fragment
  alone for an element, and \<open>#v\<close>, \<open>.v\<close>, \<open>[v]\<close>, \<open>:v\<close>, \<open>::v\<close> for the other kinds. The
  empty chain renders the fresh builder itself, to the empty string.
\<close>

theorem chain_in_order:
  assumes "r < length h" and "h ! r = obj '''' 0"
    and "in_order (map fst ps)"
    and "list_all (\<lambda>(k, v). marker_free k v) ps"
  shows "\<exists>b h'. chain r ps h = (Inr b, h')
           \<and> fst (stringify b h') = Inr (concat (map (\<lambda>(k, v). part_text k v) ps))"
proof -
  have "settled None (h ! r)"
    by (simp add: assms(2))
  from chain_settled [OF assms(1) this assms(3) [unfolded in_order_def] assms(4)]
  obtain b h' where "chain r ps h = (Inr b, h')" "b < length h'"
    "val (h' ! b) = val (h ! r) @ concat (map (\<lambda>(k, v). part_text k v) ps)"
    by blast
  then show ?thesis
    by (simp add: stringify_valid assms(2))
qed

text \<open>
  \<^verbatim>\<open>element('a').attr('href$=".png"').pseudoClass('focus').stringify()\<close> on the root, and
  the root's own \<^verbatim>\<open>stringify()\<close>.
\<close>

theorem chain_in_order_witness:
  "cssSelectorBuilder < length initial_heap
   \<and> initial_heap ! cssSelectorBuilder = obj '''' 0
   \<and> in_order (map fst [(Element, ''a''), (Attr, ''href$=\".png\"''), (PseudoClass, ''focus'')])
   \<and> list_all (\<lambda>(k, v). marker_free k v)
        [(Element, ''a''), (Attr, ''href$=\".png\"''), (PseudoClass, ''focus'')]
   \<and> (\<exists>b h'. chain cssSelectorBuilder
                 [(Element, ''a''), (Attr, ''href$=\".png\"''), (PseudoClass, ''focus'')]
                 initial_heap = (Inr b, h')
          \<and> fst (stringify b h') = Inr ''a[href$=\".png\"]:focus'')
   \<and> fst (stringify cssSelectorBuilder initial_heap) = Inr ''''"
proof -
  let ?ps = "[(Element, ''a''), (Attr, ''href$=\".png\"''), (PseudoClass, ''focus'')]"
  have 1: "cssSelectorBuilder < length initial_heap"
    by (simp add: cssSelectorBuilder_def initial_heap_def SelectorBuilder_def)
  have 2: "initial_heap ! cssSelectorBuilder = obj '''' 0"
    by (simp add: cssSelectorBuilder_def initial_heap_def SelectorBuilder_def)
  have 3: "in_order (map fst ?ps)"
    by (simp add: in_order_def)
  have 4: "list_all (\<lambda>(k, v). marker_free k v) ?ps"
    by (simp add: marker_free_def later_markers_def kinds_def)
  have 5: "in_order (map fst ([] :: (kind \<times> string) list))"
    by (simp add: in_order_def)
  show ?thesis
    using chain_in_order [OF 1 2 3 4] chain_in_order [OF 1 2 5] 1 2 3 4
    by simp
qed

text \<open>
  C7 as stated fails at \<^verbatim>\<open>element('a').attr('href="x::y"').pseudoClass('focus')\<close>: the
  kinds are in the fixed order, and the third call finds \<open>::\<close> in the value.
\<close>

theorem chain_in_order_counterexample:
  "in_order (map fst [(Element, ''a''), (Attr, ''href=\"x::y\"''), (PseudoClass, ''focus'')])
   \<and> chain cssSelectorBuilder
        [(Element, ''a''), (Attr, ''href=\"x::y\"''), (PseudoClass, ''focus'')] initial_heap =
       (Inl OutOfOrderError, [obj '''' 0, obj ''a'' 1, obj ''a[href=\"x::y\"]'' 1])"
  by (simp add: in_order_def element_def attr_def pseudoClass_def cssSelectorBuilder_def
        initial_heap_def SelectorBuilder_def isError_def elementsSymbols_def slice_def)

subsection \<open>The same kind again\<close>

lemma append_part_Inr:
  assumes "append_part k b v h = (Inr b', h')"
  shows "b < length h" and "\<not> repeats (h ! b) k" and "\<not> holds_later (h ! b) k"
    and "b' = length h"
    and "h' = h @ [obj (val (h ! b) @ part_text k v)
                       (elementCount (h ! b) + (if k = Element then 1 else 0))]"
proof -
  show valid: "b < length h"
    using assms append_part_invalid [of h b k v] by (cases "b < length h") simp_all
  show "\<not> repeats (h ! b) k" and "\<not> holds_later (h ! b) k" and "b' = length h"
    and "h' = h @ [obj (val (h ! b) @ part_text k v)
                       (elementCount (h ! b) + (if k = Element then 1 else 0))]"
    using assms by (simp_all add: append_part_cases [OF valid] split: if_splits)
qed

lemma repeatable_again:
  assumes "repeatable k" and "\<not> holds_later this k" and "marker_free k v"
    and "k = PseudoClass \<longrightarrow> val this = [] \<or> last (val this) \<noteq> CHR '':''"
  shows "\<not> holds_later (obj (val this @ part_text k v) n) k"
proof (cases "k = PseudoClass")
  case True
  have "no_dcolon (val this)"
    using assms(2,4) by (simp add: True no_dcolon_def holds_later_def later_markers_simps)
  then have "no_dcolon (val this @ '':'' @ v)"
    using assms(3)
    by (intro no_dcolon_append) (auto simp add: True marker_free_def later_markers_simps)
  then show ?thesis
    by (simp add: True no_dcolon_def holds_later_def later_markers_simps)
next
  case False
  with assms(1) have k: "k = Class \<or> k = Attr"
    by (simp add: repeatable_def)
  have old: "CHR '':'' \<notin> set (val this)" "k = Class \<longrightarrow> CHR ''['' \<notin> set (val this)"
    using assms(2) k
    by (auto simp add: holds_later_def later_markers_simps str_includes_single)
  have new: "CHR '':'' \<notin> set (part_text k v)" "k = Class \<longrightarrow> CHR ''['' \<notin> set (part_text k v)"
    using assms(3) k by (auto simp add: marker_free_def later_markers_simps)
  have "\<not> str_includes (val this @ part_text k v) ''::''"
    using str_includes_dcolon [of "val this @ part_text k v"] old(1) new(1) by auto
  with old new k show ?thesis
    by (auto simp add: holds_later_def later_markers_simps str_includes_single)
qed

text \<open>
  C1, as the code has it. On a builder of the store a class, attribute or pseudo-class
  part is appended, and a new builder returned, exactly when the receiver's value includes
  no marker of a strictly later kind. In particular the call succeeds when it is made, in
  the store as the previous call left it, on the builder that a call of that same kind has
  just returned, the fragment of that previous call being free of the characters of later
  markers (for a pseudo-class: when moreover the value before that previous call did not
  end with a colon). An id is not repeatable: on a builder of any store, \<^verbatim>\<open>id\<close> fails with
  the duplicate error exactly when the receiver's value includes \<open>#\<close>; the builder an
  \<^verbatim>\<open>id\<close> call returns has such a value in the store as that call left it, so that an
  \<^verbatim>\<open>id\<close> call made on it there fails with the duplicate error.
\<close>

theorem repeatable_part:
  "(b < length h \<and> repeatable k \<longrightarrow>
      (append_part k b v h =
         (Inr (length h), h @ [obj (val (h ! b) @ part_text k v) (elementCount (h ! b))]))
      = (\<not> list_ex (str_includes (val (h ! b))) (later_markers k)))
   \<and> (repeatable k \<and> append_part k b0 v0 h0 = (Inr b, h) \<and> marker_free k v0
        \<and> (k = PseudoClass \<longrightarrow> val (h0 ! b0) = [] \<or> last (val (h0 ! b0)) \<noteq> CHR '':'') \<longrightarrow>
      append_part k b v h =
        (Inr (length h), h @ [obj (val (h ! b) @ part_text k v) (elementCount (h ! b))]))
   \<and> (c < length g \<longrightarrow>
        (id_op c w g = (Inl DuplicateUniquePartError, g)) = str_includes (val (g ! c)) ''#'')
   \<and> (id_op c0 w0 g0 = (Inr c, g) \<longrightarrow>
        c < length g \<and> str_includes (val (g ! c)) ''#''
        \<and> id_op c w g = (Inl DuplicateUniquePartError, g))"
proof (intro conjI impI)
  assume "b < length h \<and> repeatable k"
  then show "(append_part k b v h =
         (Inr (length h), h @ [obj (val (h ! b) @ part_text k v) (elementCount (h ! b))]))
      = (\<not> list_ex (str_includes (val (h ! b))) (later_markers k))"
    by (auto simp add: append_part_cases repeats_def holds_later_def repeatable_def)
next
  assume a: "repeatable k \<and> append_part k b0 v0 h0 = (Inr b, h) \<and> marker_free k v0
        \<and> (k = PseudoClass \<longrightarrow> val (h0 ! b0) = [] \<or> last (val (h0 ! b0)) \<noteq> CHR '':'')"
  then have k: "repeatable k" and run: "append_part k b0 v0 h0 = (Inr b, h)"
    and free: "marker_free k v0"
    and tail: "k = PseudoClass \<longrightarrow> val (h0 ! b0) = [] \<or> last (val (h0 ! b0)) \<noteq> CHR '':''"
    by simp_all
  note r = append_part_Inr [OF run]
  have new: "h ! b = obj (val (h0 ! b0) @ part_text k v0) (elementCount (h0 ! b0))"
    using k by (auto simp add: r(4,5) repeatable_def)
  have valid: "b < length h"
    by (simp add: r(4,5))
  have "\<not> holds_later (h ! b) k"
    unfolding new using k r(3) free tail by (rule repeatable_again)
  moreover have "\<not> repeats (h ! b) k"
    using k by (auto simp add: repeats_def repeatable_def)
  moreover have "k \<noteq> Element"
    using k by (auto simp add: repeatable_def)
  ultimately show "append_part k b v h =
        (Inr (length h), h @ [obj (val (h ! b) @ part_text k v) (elementCount (h ! b))])"
    by (simp add: append_part_cases [OF valid])
next
  assume valid: "c < length g"
  show "(id_op c w g = (Inl DuplicateUniquePartError, g)) = str_includes (val (g ! c)) ''#''"
    using append_part_cases [OF valid, of Id w] by (simp add: repeats_def)
next
  assume run: "id_op c0 w0 g0 = (Inr c, g)"
  then have run': "append_part Id c0 w0 g0 = (Inr c, g)"
    by simp
  note r = append_part_Inr [OF run']
  show valid: "c < length g"
    by (simp add: r(4,5))
  have "val (g ! c) = val (g0 ! c0) @ ''#'' @ w0"
    by (simp add: r(4,5))
  then show holds: "str_includes (val (g ! c)) ''#''"
    by (simp add: str_includes_single)
  then have "repeats (g ! c) Id"
    by (simp add: repeats_def)
  then show "id_op c w g = (Inl DuplicateUniquePartError, g)"
    using append_part_cases [OF valid, of Id w] by simp
qed

text \<open>\<^verbatim>\<open>id('main').class('container').class('editable')\<close> and \<^verbatim>\<open>id('main').id('other')\<close>\<close>

theorem repeatable_part_witness:
  "(2::nat) < length [obj '''' 0, obj ''#main'' 0, obj ''#main.container'' 0]
   \<and> repeatable Class
   \<and> append_part Class 1 ''container'' [obj '''' 0, obj ''#main'' 0] =
       (Inr 2, [obj '''' 0, obj ''#main'' 0, obj ''#main.container'' 0])
   \<and> marker_free Class ''container''
   \<and> append_part Class 2 ''editable'' [obj '''' 0, obj ''#main'' 0, obj ''#main.container'' 0] =
       (Inr 3, [obj '''' 0, obj ''#main'' 0, obj ''#main.container'' 0,
                obj ''#main.container.editable'' 0])
   \<and> id_op 0 ''main'' [obj '''' 0] = (Inr 1, [obj '''' 0, obj ''#main'' 0])
   \<and> (1::nat) < length [obj '''' 0, obj ''#main'' 0]
   \<and> str_includes (val ([obj '''' 0, obj ''#main'' 0] ! 1)) ''#''
   \<and> id_op 1 ''other'' [obj '''' 0, obj ''#main'' 0] =
       (Inl DuplicateUniquePartError, [obj '''' 0, obj ''#main'' 0])"
proof -
  let ?g = "[obj '''' 0, obj ''#main'' 0]"
  let ?h = "[obj '''' 0, obj ''#main'' 0, obj ''#main.container'' 0]"
  have 1: "(2::nat) < length ?h"
    by simp
  have 2: "repeatable Class"
    by (simp add: repeatable_def)
  have 3: "append_part Class 1 ''container'' ?g = (Inr 2, ?h)"
    by (simp add: class_op_def SelectorBuilder_def isError_def elementsSymbols_def slice_def)
  have 4: "marker_free Class ''container''"
    by (simp add: marker_free_def later_markers_def kinds_def)
  have 5: "id_op 0 ''main'' [obj '''' 0] = (Inr 1, ?g)"
    by (simp add: id_op_def SelectorBuilder_def isError_def elementsSymbols_def slice_def)
  have 6: "length ?h = 3"
    by simp
  show ?thesis
    using repeatable_part [of 2 ?h Class "''editable''" 1 "''container''" ?g
        1 ?g "''other''" 0 "''main''" "[obj '''' 0]"]
      1 2 3 4 5
    unfolding 6 by simp
qed

text \<open>
  C1 as stated fails at \<^verbatim>\<open>id('a').id('b')\<close>, which raises the duplicate error, and at
  \<^verbatim>\<open>class('a:b').class('c')\<close>, which raises the order error.
\<close>

theorem repeatable_part_counterexample:
  "id_op cssSelectorBuilder ''a'' initial_heap = (Inr 1, [obj '''' 0, obj ''#a'' 0])
   \<and> id_op 1 ''b'' [obj '''' 0, obj ''#a'' 0] =
       (Inl DuplicateUniquePartError, [obj '''' 0, obj ''#a'' 0])
   \<and> class_op cssSelectorBuilder ''a:b'' initial_heap = (Inr 1, [obj '''' 0, obj ''.a:b'' 0])
   \<and> class_op 1 ''c'' [obj '''' 0, obj ''.a:b'' 0] =
       (Inl OutOfOrderError, [obj '''' 0, obj ''.a:b'' 0])"
  by (simp add: id_op_def class_op_def cssSelectorBuilder_def initial_heap_def
        SelectorBuilder_def isError_def elementsSymbols_def slice_def)

text \<open>
  The duplicate test reads the value the receiver holds at the call. Once the builder an
  \<^verbatim>\<open>id\<close> call returned has been the receiver of \<^verbatim>\<open>combine\<close>, its value is empty, and
  \<^verbatim>\<open>id\<close> on it succeeds: \<^verbatim>\<open>b = id('a')\<close>, \<^verbatim>\<open>b.combine(root, '+', root)\<close>, \<^verbatim>\<open>b.id('b')\<close>.
\<close>

lemma id_after_combine:
  "id_op cssSelectorBuilder ''a'' initial_heap = (Inr 1, [obj '''' 0, obj ''#a'' 0])
   \<and> combine 1 0 ''+'' 0 [obj '''' 0, obj ''#a'' 0] =
       (Inr 2, [obj '''' 0, obj '''' 0, obj '' + '' 0])
   \<and> id_op 1 ''b'' [obj '''' 0, obj '''' 0, obj '' + '' 0] =
       (Inr 3, [obj '''' 0, obj '''' 0, obj '' + '' 0, obj ''#b'' 0])"
  by (simp add: id_op_def combine_def stringify_def cssSelectorBuilder_def initial_heap_def
        SelectorBuilder_def isError_def elementsSymbols_def slice_def)

end
